theory Spec2Isabelle
  imports Main
begin

section \<open>Errors\<close>

text \<open>
  Every failure of \<^verbatim>\<open>player.ts\<close> is a thrown \<^verbatim>\<open>new Error(message)\<close>; the one
  failure the source does not throw itself is the runtime's \<^verbatim>\<open>TypeError\<close> on reading a
  property of \<^verbatim>\<open>undefined\<close>. An operation returns \<open>Inl\<close> of the error, or \<open>Inr\<close> of its
  value, together with the state it leaves behind.
\<close>

datatype error = Error string | TypeError string

definition NotConnectedError :: error where
  "NotConnectedError = Error ''Not connected to a voice channel.''"

definition NoCurrentSongError :: error where
  "NoCurrentSongError = Error ''No song currently playing''"

definition EmptyQueueError :: error where
  "EmptyQueueError = Error ''Queue empty.''"

definition NotPlayingError :: error where
  "NotPlayingError = Error ''Not currently playing.''"

definition CacheTimeoutError :: error where
  "CacheTimeoutError = Error ''Timed out waiting for file to become cached.''"

definition NoSuitableFormatError :: error where
  "NoSuitableFormatError = Error ''Can't find suitable format.''"

definition UndefinedLiveError :: error where
  "UndefinedLiveError = TypeError ''Cannot read property live of undefined''"

section \<open>Remote encodings (ytdl.videoFormat)\<close>

text \<open>
  The fields of \<^verbatim>\<open>ytdl.videoFormat\<close> that \<^verbatim>\<open>getStream\<close> reads. An optional field is an
  \<open>option\<close> (\<open>None\<close> is \<^verbatim>\<open>undefined\<close>); numbers are integers.
\<close>

record videoFormat =
  codecs :: string
  container :: string
  audioSampleRate :: "string option"
  live :: bool
  audioBitrate :: "int option"
  itag :: int
  averageBitrate :: "int option"
  bitrate :: "int option"
  url :: string

record videoInfo =
  formats :: "videoFormat list"
  isLiveContent :: bool

subsection \<open>parseInt(s, 10)\<close>

definition isWhiteSpace :: "char \<Rightarrow> bool" where
  "isWhiteSpace c = (c \<in> set [CHR '' '', CHR 0x09, CHR 0x0A, CHR 0x0B, CHR 0x0C, CHR 0x0D])"

definition digitVal :: "char \<Rightarrow> nat option" where
  "digitVal c = (let n = (of_char c :: nat) in if 48 \<le> n \<and> n \<le> 57 then Some (n - 48) else None)"

fun parseDigits :: "nat \<Rightarrow> string \<Rightarrow> nat" where
  "parseDigits acc [] = acc"
| "parseDigits acc (c # cs) =
     (case digitVal c of None \<Rightarrow> acc | Some d \<Rightarrow> parseDigits (10 * acc + d) cs)"

definition stripSign :: "string \<Rightarrow> bool \<times> string" where
  "stripSign t =
     (case t of
        [] \<Rightarrow> (False, [])
      | c # cs \<Rightarrow>
          if c = CHR ''-'' then (True, cs)
          else if c = CHR ''+'' then (False, cs)
          else (False, t))"

text \<open>
  \<^verbatim>\<open>parseInt(s, 10)\<close>: leading white space is skipped, one sign is read, then the longest
  run of decimal digits; \<open>None\<close> is \<^verbatim>\<open>NaN\<close> (no digit there). Of the white space
  characters only the six of ASCII are skipped here; the others that \<^verbatim>\<open>parseInt\<close> skips
  (U+00A0, U+FEFF and the Unicode space separators) are outside the model.
\<close>

definition parseInt :: "string \<Rightarrow> int option" where
  "parseInt s =
     (let (neg, u) = stripSign (dropWhile isWhiteSpace s) in
      case u of
        [] \<Rightarrow> None
      | c # _ \<Rightarrow>
          (case digitVal c of
             None \<Rightarrow> None
           | Some _ \<Rightarrow> Some (if neg then - int (parseDigits 0 u) else int (parseDigits 0 u))))"

subsection \<open>Truthiness of an optional number\<close>

definition truthy :: "int option \<Rightarrow> bool" where
  "truthy v = (case v of None \<Rightarrow> False | Some n \<Rightarrow> n \<noteq> 0)"

subsection \<open>Array.prototype.sort with a comparator\<close>

text \<open>
  The sort is stable; a comparator result of \<^verbatim>\<open>NaN\<close> counts as \<open>0\<close>. An element goes
  before the first later element it does not compare greater than. With every key
  defined the comparators used here are consistent and this is the order
  \<^verbatim>\<open>Array.prototype.sort\<close> gives; with an undefined key the comparator is not consistent,
  the order of \<^verbatim>\<open>Array.prototype.sort\<close> is left to the implementation, and the insertion
  below is one such order only.
\<close>

fun insert_by :: "('a \<Rightarrow> 'a \<Rightarrow> int) \<Rightarrow> 'a \<Rightarrow> 'a list \<Rightarrow> 'a list" where
  "insert_by c x [] = [x]"
| "insert_by c x (y # ys) = (if c x y \<le> 0 then x # y # ys else y # insert_by c x ys)"

definition sort_by :: "('a \<Rightarrow> 'a \<Rightarrow> int) \<Rightarrow> 'a list \<Rightarrow> 'a list" where
  "sort_by c xs = foldr (insert_by c) xs []"

text \<open>\<^verbatim>\<open>b.x - a.x\<close> on optional numbers: \<^verbatim>\<open>NaN\<close> when either is undefined, read as \<open>0\<close>.\<close>

definition descending :: "('a \<Rightarrow> int option) \<Rightarrow> 'a \<Rightarrow> 'a \<Rightarrow> int" where
  "descending key a b =
     (case (key b, key a) of (Some y, Some x) \<Rightarrow> y - x | _ \<Rightarrow> 0)"

subsection \<open>Format selection\<close>

definition nativeFilter :: "videoFormat \<Rightarrow> bool" where
  "nativeFilter format =
     (codecs format = ''opus'' \<and> container format = ''webm'' \<and>
      (case audioSampleRate format of None \<Rightarrow> False | Some r \<Rightarrow> parseInt r = Some 48000))"

definition liveItags :: "int list" where
  "liveItags = [128, 127, 120, 96, 95, 94, 93]"

text \<open>
  \<^verbatim>\<open>nextBestFormat\<close>: \<^verbatim>\<open>formats[0].live\<close> on an empty array reads a property of
  \<^verbatim>\<open>undefined\<close> and throws; \<open>Inr None\<close> is the returned \<^verbatim>\<open>undefined\<close>.
\<close>

definition nextBestFormat :: "videoFormat list \<Rightarrow> error + videoFormat option" where
  "nextBestFormat fmts =
     (case fmts of
        [] \<Rightarrow> Inl UndefinedLiveError
      | f0 # _ \<Rightarrow>
          if live f0 then
            Inr (find (\<lambda>format. itag format \<in> set liveItags)
                   (sort_by (descending audioBitrate) fmts))
          else
            (let sorted = sort_by (descending averageBitrate)
                            (filter (\<lambda>format. truthy (averageBitrate format)) fmts)
             in Inr (case find (\<lambda>format. \<not> truthy (bitrate format)) sorted of
                       Some f \<Rightarrow> Some f
                     | None \<Rightarrow> (case sorted of [] \<Rightarrow> None | f # _ \<Rightarrow> Some f))))"

section \<open>The content cache\<close>

text \<open>
  What the class is constructed with and the libraries it calls: the cache directory, the
  digest \<^verbatim>\<open>hasha\<close>, \<^verbatim>\<open>path.join\<close> on a directory and a file name, and \<^verbatim>\<open>ytdl.getInfo\<close>
  (\<open>Inl\<close> when its promise rejects). They are parameters of the model.
\<close>

record env =
  cacheDir :: string
  hasha :: "string \<Rightarrow> string"
  path_join :: "string \<Rightarrow> string \<Rightarrow> string"
  getInfo :: "string \<Rightarrow> error + videoInfo"

text \<open>The file system, as far as \<^verbatim>\<open>fs.access\<close> sees it: the paths that exist.\<close>

type_synonym filesystem = "string set"

definition getCachedPath :: "env \<Rightarrow> string \<Rightarrow> string" where
  "getCachedPath E u = path_join E (cacheDir E) (hasha E u)"

definition getCachedPathTemp :: "env \<Rightarrow> string \<Rightarrow> string" where
  "getCachedPathTemp E u = path_join E ''/tmp'' (hasha E u)"

definition isCached :: "env \<Rightarrow> filesystem \<Rightarrow> string \<Rightarrow> bool" where
  "isCached E fs u = (getCachedPath E u \<in> fs)"

subsection \<open>waitForCache\<close>

text \<open>
  \<open>fsAt k\<close> is the file system at the \<open>k\<close>-th existence check of a call: \<open>fsAt 0\<close> at the
  check made at once, \<open>fsAt k\<close> at the \<open>k\<close>-th run of the interval callback.
  \<open>cachedCheck\<close> is the callback of \<^verbatim>\<open>setInterval\<close>, entered with the current value of
  \<^verbatim>\<open>nOfChecks\<close>; the interval runs it again until \<^verbatim>\<open>clearInterval\<close>. The result is the
  settlement of the promise and the number of callback runs made.
\<close>

function cachedCheck ::
  "env \<Rightarrow> (nat \<Rightarrow> filesystem) \<Rightarrow> string \<Rightarrow> int \<Rightarrow> nat \<Rightarrow> (error + unit) \<times> nat" where
  "cachedCheck E fsAt u maxRetries nOfChecks =
     (if isCached E (fsAt (Suc nOfChecks)) u then (Inr (), Suc nOfChecks)
      else if int (Suc nOfChecks) > maxRetries then (Inl CacheTimeoutError, Suc nOfChecks)
      else cachedCheck E fsAt u maxRetries (Suc nOfChecks))"
  by pat_completeness auto
termination
  by (relation "measure (\<lambda>(E, fsAt, u, maxRetries, nOfChecks). nat (maxRetries + 1 - int nOfChecks))")
     auto

declare cachedCheck.simps [simp del]

text \<open>
  \<^verbatim>\<open>waitForCache(url, maxRetries, retryDelay)\<close>: the settlement, the number of interval
  callbacks run, and the time in milliseconds at which the last of them is due
  (the \<open>k\<close>-th callback is due \<open>k * retryDelay\<close> after the call).
\<close>

definition waitForCache ::
  "env \<Rightarrow> (nat \<Rightarrow> filesystem) \<Rightarrow> string \<Rightarrow> int \<Rightarrow> nat \<Rightarrow> (error + unit) \<times> nat \<times> nat" where
  "waitForCache E fsAt u maxRetries retryDelay =
     (if isCached E (fsAt 0) u then (Inr (), 0, 0)
      else (let (r, polls) = cachedCheck E fsAt u maxRetries 0
            in (r, polls, polls * retryDelay)))"

section \<open>Source acquisition\<close>

text \<open>
  What \<^verbatim>\<open>getStream\<close> resolves to: the cached path, or a reader of the capacitor fed by
  \<^verbatim>\<open>ytdl.downloadFromInfo\<close> with the chosen format (direct play) or by \<^verbatim>\<open>ffmpeg\<close> on the
  chosen format's url (transcoding); the flag says whether a cache writer was forked.
\<close>

datatype youtubeStream = DownloadFromInfo videoFormat | Ffmpeg string

datatype playable = CachedFile string | Capacitor youtubeStream bool

definition getStream :: "env \<Rightarrow> filesystem \<Rightarrow> string \<Rightarrow> error + playable" where
  "getStream E fs u =
     (if isCached E fs u then Inr (CachedFile (getCachedPath E u))
      else
        (case getInfo E u of
           Inl e \<Rightarrow> Inl e
         | Inr info \<Rightarrow>
             (case find nativeFilter (formats info) of
                Some format \<Rightarrow>
                  Inr (Capacitor (DownloadFromInfo format) (\<not> isLiveContent info))
              | None \<Rightarrow>
                  (case nextBestFormat (formats info) of
                     Inl e \<Rightarrow> Inl e
                   | Inr None \<Rightarrow> Inl NoSuitableFormatError
                   | Inr (Some format) \<Rightarrow>
                       Inr (Capacitor (Ffmpeg (url format)) (\<not> isLiveContent info))))))"

definition transcoded :: "playable \<Rightarrow> bool" where
  "transcoded p = (case p of Capacitor (Ffmpeg _) _ \<Rightarrow> True | _ \<Rightarrow> False)"

subsection \<open>The cache writer\<close>

text \<open>
  The writer forked by \<^verbatim>\<open>getStream\<close> for a url: \<^verbatim>\<open>createWriteStream\<close> creates the
  temporary file, chunks are written to it, and on \<^verbatim>\<open>finish\<close> the listener calls
  \<^verbatim>\<open>fs.rename\<close> from the temporary path to the cached path; a write that fails or is
  aborted never reaches \<^verbatim>\<open>finish\<close>. The rename has no handler and no fallback: it
  rejects, and changes nothing, when the temporary path does not exist, and also when the
  file system refuses it (the cache directory is missing, or lies on another file system
  than \<^verbatim>\<open>/tmp\<close>). \<open>Finish ok\<close> is the \<^verbatim>\<open>finish\<close> event, \<open>ok\<close> telling whether the file
  system lets the rename through.
\<close>

datatype writer_event = CreateWriteStream | WriteChunk | WriteFailed | Finish bool

fun writer_step :: "env \<Rightarrow> filesystem \<Rightarrow> string \<times> writer_event \<Rightarrow> filesystem" where
  "writer_step E fs (u, CreateWriteStream) = insert (getCachedPathTemp E u) fs"
| "writer_step E fs (u, WriteChunk) = fs"
| "writer_step E fs (u, WriteFailed) = fs"
| "writer_step E fs (u, Finish ok) =
     (if ok \<and> getCachedPathTemp E u \<in> fs
      then insert (getCachedPath E u) (fs - {getCachedPathTemp E u})
      else fs)"

definition writer_run :: "env \<Rightarrow> filesystem \<Rightarrow> (string \<times> writer_event) list \<Rightarrow> filesystem" where
  "writer_run E fs evs = foldl (writer_step E) fs evs"

text \<open>
  Whether some event of the trace is a \<^verbatim>\<open>finish\<close> whose rename succeeds (the file system
  lets it through and the temporary file is there) and creates the cached path of \<open>u\<close>:
  a publish for \<open>u\<close> that completes.
\<close>

fun published :: "env \<Rightarrow> filesystem \<Rightarrow> (string \<times> writer_event) list \<Rightarrow> string \<Rightarrow> bool" where
  "published E fs [] u = False"
| "published E fs (e # es) u =
     ((snd e = Finish True \<and> getCachedPathTemp E (fst e) \<in> fs \<and>
       getCachedPath E (fst e) = getCachedPath E u)
      \<or> published E (writer_step E fs e) es u)"

section \<open>The playback session\<close>

datatype STATUS = PLAYING | PAUSED | DISCONNECTED

text \<open>
  The transport's objects, as far as the class touches them. A connection counts the
  \<^verbatim>\<open>disconnect\<close> listeners put on it; a dispatcher is what \<^verbatim>\<open>voiceConnection.play\<close> was
  given (the source and the options \<^verbatim>\<open>seek\<close> and \<^verbatim>\<open>type\<close>), whether it is paused, and the
  \<^verbatim>\<open>speaking\<close> listeners put on it.
\<close>

record VoiceConnection =
  connected :: bool
  disconnectListeners :: nat

record StreamDispatcher =
  resource :: playable
  seekOption :: "int option"
  typeOption :: "string option"
  paused :: bool
  speakingListeners :: nat

record QueuedSong =
  url :: string

text \<open>
  The fields of the class. \<open>playPositionInterval\<close> is \<open>None\<close> while undefined,
  \<open>Some True\<close> while the interval it holds is running and \<open>Some False\<close> once that
  interval has been cleared (the field keeps the handle). The queue is the array that
  \<^verbatim>\<open>queue.get()\<close> returns.
\<close>

record player =
  status :: STATUS
  queue :: "QueuedSong list"
  voiceConnection :: "VoiceConnection option"
  dispatcher :: "StreamDispatcher option"
  playPositionInterval :: "bool option"
  positionInSeconds :: int

definition newPlayer :: "QueuedSong list \<Rightarrow> player" where
  "newPlayer q =
     \<lparr>status = DISCONNECTED, queue = q, voiceConnection = None, dispatcher = None,
      playPositionInterval = None, positionInSeconds = 0\<rparr>"

text \<open>
  Modelled from the spec: the queue collaborator (\<^verbatim>\<open>./queue\<close>) is not among the sources.
  Its \<^verbatim>\<open>get()\<close> is the ordered sequence of items, the head being the current one, and its
  \<^verbatim>\<open>forward()\<close> drops the head.
\<close>

definition forward :: "QueuedSong list \<Rightarrow> QueuedSong list" where
  "forward q = drop 1 q"

definition connect :: "VoiceConnection \<Rightarrow> player \<Rightarrow> player" where
  "connect conn s = s\<lparr>voiceConnection := Some conn\<rparr>"

definition getPosition :: "player \<Rightarrow> int" where
  "getPosition s = positionInSeconds s"

definition getCurrentSong :: "player \<Rightarrow> QueuedSong option" where
  "getCurrentSong s = (case queue s of [] \<Rightarrow> None | song # _ \<Rightarrow> Some song)"

subsection \<open>The position tracker\<close>

text \<open>
  \<^verbatim>\<open>if (initalPosition)\<close> is false for an absent argument and for \<open>0\<close>. The interval held
  before is cleared and a running one takes its place.
\<close>

definition startTrackingPosition :: "int option \<Rightarrow> player \<Rightarrow> player" where
  "startTrackingPosition initalPosition s =
     (let s1 = (case initalPosition of
                  None \<Rightarrow> s
                | Some p \<Rightarrow> if p \<noteq> 0 then s\<lparr>positionInSeconds := p\<rparr> else s)
      in s1\<lparr>playPositionInterval := Some True\<rparr>)"

definition stopTrackingPosition :: "player \<Rightarrow> player" where
  "stopTrackingPosition s =
     (case playPositionInterval s of
        None \<Rightarrow> s
      | Some _ \<Rightarrow> s\<lparr>playPositionInterval := Some False\<rparr>)"

text \<open>One second passing: the callback of a running interval.\<close>

definition tick :: "player \<Rightarrow> player" where
  "tick s =
     (if playPositionInterval s = Some True
      then s\<lparr>positionInSeconds := positionInSeconds s + 1\<rparr>
      else s)"

subsection \<open>Operations\<close>

definition connectionPlay :: "playable \<Rightarrow> int option \<Rightarrow> string option \<Rightarrow> StreamDispatcher" where
  "connectionPlay src seekOpt typeOpt =
     \<lparr>resource = src, seekOption = seekOpt, typeOption = typeOpt, paused = False,
      speakingListeners = 0\<rparr>"

definition attachListeners :: "player \<Rightarrow> player" where
  "attachListeners s =
     (case voiceConnection s of
        None \<Rightarrow> s
      | Some conn \<Rightarrow>
          (let s1 = s\<lparr>voiceConnection :=
                       Some (conn\<lparr>disconnectListeners := Suc (disconnectListeners conn)\<rparr>)\<rparr>
           in case dispatcher s1 of
                None \<Rightarrow> s1
              | Some d \<Rightarrow>
                  s1\<lparr>dispatcher := Some (d\<lparr>speakingListeners := Suc (speakingListeners d)\<rparr>)\<rparr>))"

definition pause :: "player \<Rightarrow> (error + unit) \<times> player" where
  "pause s =
     (if status s \<noteq> PLAYING then (Inl NotPlayingError, s)
      else
        (let s1 = s\<lparr>status := PAUSED\<rparr>;
             s2 = (case dispatcher s1 of
                     None \<Rightarrow> s1
                   | Some d \<Rightarrow> s1\<lparr>dispatcher := Some (d\<lparr>paused := True\<rparr>)\<rparr>)
         in (Inr (), stopTrackingPosition s2)))"

text \<open>
  \<^verbatim>\<open>seek\<close> waits with the defaults of \<^verbatim>\<open>waitForCache\<close>, 50 retries 500 ms apart. The
  calls awaited inside an operation read the file system through \<open>fsAt\<close>; the operation is
  taken in one step.
\<close>

definition seek :: "env \<Rightarrow> (nat \<Rightarrow> filesystem) \<Rightarrow> int \<Rightarrow> player \<Rightarrow> (error + unit) \<times> player" where
  "seek E fsAt positionSeconds s =
     (case voiceConnection s of
        None \<Rightarrow> (Inl NotConnectedError, s)
      | Some conn \<Rightarrow>
          (case getCurrentSong s of
             None \<Rightarrow> (Inl NoCurrentSongError, s)
           | Some currentSong \<Rightarrow>
               (case fst (waitForCache E fsAt (QueuedSong.url currentSong) 50 500) of
                  Inl e \<Rightarrow> (Inl e, s)
                | Inr _ \<Rightarrow>
                    (let s1 = s\<lparr>dispatcher :=
                                 Some (connectionPlay
                                         (CachedFile (getCachedPath E (QueuedSong.url currentSong)))
                                         (Some positionSeconds) None)\<rparr>;
                         s2 = attachListeners s1;
                         s3 = startTrackingPosition (Some positionSeconds) s2
                     in (Inr (), s3\<lparr>status := PLAYING\<rparr>)))))"

definition forwardSeek :: "env \<Rightarrow> (nat \<Rightarrow> filesystem) \<Rightarrow> int \<Rightarrow> player \<Rightarrow> (error + unit) \<times> player" where
  "forwardSeek E fsAt positionSeconds s = seek E fsAt (positionInSeconds s + positionSeconds) s"

text \<open>
  In \<^verbatim>\<open>play\<close> the first existence check reads \<open>fsAt 0\<close> and the one inside
  \<^verbatim>\<open>getStream\<close> reads \<open>fsAt 1\<close>.
\<close>

definition play :: "env \<Rightarrow> (nat \<Rightarrow> filesystem) \<Rightarrow> player \<Rightarrow> (error + unit) \<times> player" where
  "play E fsAt s =
     (case voiceConnection s of
        None \<Rightarrow> (Inl NotConnectedError, s)
      | Some conn \<Rightarrow>
          if status s = PAUSED then
            (case dispatcher s of
               Some d \<Rightarrow> (Inr (), s\<lparr>dispatcher := Some (d\<lparr>paused := False\<rparr>), status := PLAYING\<rparr>)
             | None \<Rightarrow> seek E fsAt (getPosition s) s)
          else
            (case getCurrentSong s of
               None \<Rightarrow> (Inl EmptyQueueError, s)
             | Some currentSong \<Rightarrow>
                 (case (if isCached E (fsAt 0) (QueuedSong.url currentSong)
                        then Inr (connectionPlay
                                    (CachedFile (getCachedPath E (QueuedSong.url currentSong)))
                                    None None)
                        else (case getStream E (fsAt 1) (QueuedSong.url currentSong) of
                                Inl e \<Rightarrow> Inl e
                              | Inr stream \<Rightarrow> Inr (connectionPlay stream None (Some ''webm/opus''))))
                  of
                    Inl e \<Rightarrow> (Inl e, s)
                  | Inr d \<Rightarrow>
                      (let s1 = s\<lparr>dispatcher := Some d\<rparr>;
                           s2 = attachListeners s1;
                           s3 = s2\<lparr>status := PLAYING\<rparr>
                       in (Inr (), startTrackingPosition None s3)))))"

definition disconnect :: "player \<Rightarrow> player" where
  "disconnect s =
     (case voiceConnection s of
        None \<Rightarrow> s
      | Some conn \<Rightarrow>
          (let s1 = (if status s = PLAYING then snd (pause s) else s)
           in s1\<lparr>voiceConnection := Some (conn\<lparr>connected := False\<rparr>)\<rparr>))"

subsection \<open>Listeners\<close>

text \<open>The listener put on the connection's \<^verbatim>\<open>disconnect\<close> event.\<close>

definition onDisconnect :: "player \<Rightarrow> player" where
  "onDisconnect s =
     (let s1 = (if status s = PLAYING then snd (pause s) else s)
      in s1\<lparr>dispatcher := None\<rparr>)"

text \<open>
  The listener put on the dispatcher's \<^verbatim>\<open>speaking\<close> event; \<open>Inl\<close> is the rejection of the
  promise the listener returns.
\<close>

definition onSpeaking ::
  "env \<Rightarrow> (nat \<Rightarrow> filesystem) \<Rightarrow> bool \<Rightarrow> player \<Rightarrow> (error + unit) \<times> player" where
  "onSpeaking E fsAt isSpeaking s =
     (if \<not> isSpeaking \<and> status s = PLAYING then
        (if length (queue s) > 0
         then play E fsAt (s\<lparr>queue := forward (queue s)\<rparr>)
         else (Inr (), s))
      else (Inr (), s))"

section \<open>Concrete sessions\<close>

text \<open>
  An environment to run the definitions in: the digest and \<^verbatim>\<open>path.join\<close> are stood in
  for by the identity and by joining with a slash, and the remote answers for three urls.
\<close>

definition aacFormat :: videoFormat where
  "aacFormat =
     \<lparr>codecs = ''mp4a.40.2'', container = ''mp4'', audioSampleRate = Some ''44100'',
      live = False, audioBitrate = Some 128, itag = 140, averageBitrate = Some 129000,
      bitrate = Some 130000, url = ''https://remote/140''\<rparr>"

definition opusFormat :: videoFormat where
  "opusFormat =
     \<lparr>codecs = ''opus'', container = ''webm'', audioSampleRate = Some ''48000'',
      live = False, audioBitrate = Some 160, itag = 251, averageBitrate = Some 135000,
      bitrate = Some 150000, url = ''https://remote/251''\<rparr>"

definition opusLowFormat :: videoFormat where
  "opusLowFormat =
     \<lparr>codecs = ''opus'', container = ''webm'', audioSampleRate = Some ''48000'',
      live = False, audioBitrate = Some 64, itag = 250, averageBitrate = Some 66000,
      bitrate = Some 70000, url = ''https://remote/250''\<rparr>"

definition remote :: "string \<Rightarrow> error + videoInfo" where
  "remote u =
     (if u = ''native'' then
        Inr \<lparr>formats = [aacFormat, opusFormat, opusLowFormat], isLiveContent = False\<rparr>
      else if u = ''empty'' then Inr \<lparr>formats = [], isLiveContent = False\<rparr>
      else Inl (Error ''Video unavailable''))"

definition env0 :: env where
  "env0 =
     \<lparr>cacheDir = ''/data/cache'', hasha = (\<lambda>u. u), path_join = (\<lambda>d f. d @ ''/'' @ f),
      getInfo = remote\<rparr>"

definition envTmp :: env where
  "envTmp = env0\<lparr>cacheDir := ''/tmp''\<rparr>"

definition neverCached :: "nat \<Rightarrow> filesystem" where
  "neverCached k = {}"

definition cachedAB :: "nat \<Rightarrow> filesystem" where
  "cachedAB k = {''/data/cache/A'', ''/data/cache/B''}"

definition songA :: QueuedSong where
  "songA = \<lparr>url = ''A''\<rparr>"

definition songB :: QueuedSong where
  "songB = \<lparr>url = ''B''\<rparr>"

definition conn0 :: VoiceConnection where
  "conn0 = \<lparr>connected = True, disconnectListeners = 0\<rparr>"

text \<open>
  The queue \<open>[A, B]\<close>, both cached: connected, \<^verbatim>\<open>play()\<close> has started A, and three seconds
  have passed.
\<close>

definition playingA :: player where
  "playingA = snd (play env0 cachedAB (connect conn0 (newPlayer [songA, songB])))"

definition threeSecondsIn :: player where
  "threeSecondsIn = tick (tick (tick playingA))"

text \<open>The queue \<open>[A]\<close>: connected, A playing, three seconds in.\<close>

definition lastTrack :: player where
  "lastTrack = tick (tick (tick (snd (play env0 cachedAB (connect conn0 (newPlayer [songA]))))))"

section \<open>The session state machine\<close>

subsection \<open>pause\<close>

lemma stopTrackingPosition_not_running:
  "playPositionInterval (stopTrackingPosition s) \<noteq> Some True"
  by (simp add: stopTrackingPosition_def split: option.splits)

lemma tick_stopped: "playPositionInterval s \<noteq> Some True \<Longrightarrow> tick s = s"
  by (simp add: tick_def)

text \<open>
  C9. \<^verbatim>\<open>pause()\<close> succeeds only from \<open>PLAYING\<close>. From any other status (\<open>DISCONNECTED\<close>,
  \<open>PAUSED\<close>) it fails with the not-playing error and the whole session is as it was.
  When it succeeds the status is \<open>PAUSED\<close>, the tracker's interval no longer runs (a second
  passing changes nothing), the dispatcher, if one is attached, is paused, and position,
  queue and connection are as before.
\<close>

theorem pause_only_from_playing:
  "(status s \<noteq> PLAYING \<longrightarrow> pause s = (Inl NotPlayingError, s)) \<and>
   (status s = PLAYING \<longrightarrow>
      fst (pause s) = Inr () \<and>
      status (snd (pause s)) = PAUSED \<and>
      playPositionInterval (snd (pause s)) \<noteq> Some True \<and>
      tick (snd (pause s)) = snd (pause s) \<and>
      dispatcher (snd (pause s)) = map_option (\<lambda>d. d\<lparr>paused := True\<rparr>) (dispatcher s) \<and>
      positionInSeconds (snd (pause s)) = positionInSeconds s \<and>
      queue (snd (pause s)) = queue s \<and>
      voiceConnection (snd (pause s)) = voiceConnection s)"
  by (auto simp: pause_def Let_def stopTrackingPosition_def tick_def split: option.splits)

lemma playingA_eq:
  "playingA =
     \<lparr>status = PLAYING, queue = [songA, songB],
      voiceConnection = Some \<lparr>connected = True, disconnectListeners = 1\<rparr>,
      dispatcher = Some \<lparr>resource = CachedFile ''/data/cache/A'', seekOption = None,
                         typeOption = None, paused = False, speakingListeners = 1\<rparr>,
      playPositionInterval = Some True, positionInSeconds = 0\<rparr>"
  by (simp add: playingA_def play_def connect_def newPlayer_def getCurrentSong_def isCached_def
      getCachedPath_def env0_def cachedAB_def songA_def songB_def conn0_def connectionPlay_def
      attachListeners_def startTrackingPosition_def Let_def)

lemma threeSecondsIn_eq: "threeSecondsIn = playingA\<lparr>positionInSeconds := 3\<rparr>"
  by (simp add: threeSecondsIn_def playingA_eq tick_def)

lemma lastTrack_eq:
  "lastTrack =
     \<lparr>status = PLAYING, queue = [songA],
      voiceConnection = Some \<lparr>connected = True, disconnectListeners = 1\<rparr>,
      dispatcher = Some \<lparr>resource = CachedFile ''/data/cache/A'', seekOption = None,
                         typeOption = None, paused = False, speakingListeners = 1\<rparr>,
      playPositionInterval = Some True, positionInSeconds = 3\<rparr>"
  by (simp add: lastTrack_def play_def connect_def newPlayer_def getCurrentSong_def isCached_def
      getCachedPath_def env0_def cachedAB_def songA_def conn0_def connectionPlay_def
      attachListeners_def startTrackingPosition_def tick_def Let_def)

theorem pause_only_from_playing_witness:
  "pause (newPlayer [songA]) = (Inl NotPlayingError, newPlayer [songA]) \<and>
   status (newPlayer [songA]) = DISCONNECTED \<and>
   status threeSecondsIn = PLAYING \<and>
   fst (pause threeSecondsIn) = Inr () \<and>
   status (snd (pause threeSecondsIn)) = PAUSED \<and>
   playPositionInterval (snd (pause threeSecondsIn)) = Some False \<and>
   tick (snd (pause threeSecondsIn)) = snd (pause threeSecondsIn) \<and>
   positionInSeconds (snd (pause threeSecondsIn)) = 3 \<and>
   pause (snd (pause threeSecondsIn)) = (Inl NotPlayingError, snd (pause threeSecondsIn))"
proof -
  have d: "status (newPlayer [songA]) = DISCONNECTED" by (simp add: newPlayer_def)
  have p: "status threeSecondsIn = PLAYING" by (simp add: threeSecondsIn_eq playingA_eq)
  have i: "playPositionInterval (snd (pause threeSecondsIn)) = Some False"
    by (simp add: threeSecondsIn_eq playingA_eq pause_def stopTrackingPosition_def Let_def)
  have n: "positionInSeconds threeSecondsIn = 3" by (simp add: threeSecondsIn_eq)
  from pause_only_from_playing [of "newPlayer [songA]"] d
       pause_only_from_playing [of threeSecondsIn] p i n
       pause_only_from_playing [of "snd (pause threeSecondsIn)"]
  show ?thesis by simp
qed

subsection \<open>The connection check\<close>

text \<open>
  C10. \<^verbatim>\<open>play()\<close> and \<^verbatim>\<open>seek()\<close> test for the voice connection before anything else:
  with none attached both fail with the not-connected error and leave the session as it
  was, whatever the status (also \<open>PAUSED\<close>) and whatever the queue (also empty).
\<close>

theorem not_connected_first:
  assumes "voiceConnection s = None"
  shows "play E fsAt s = (Inl NotConnectedError, s) \<and>
         seek E fsAt positionSeconds s = (Inl NotConnectedError, s)"
  using assms by (simp add: play_def seek_def)

theorem not_connected_first_witness:
  "play env0 neverCached (newPlayer []) = (Inl NotConnectedError, newPlayer []) \<and>
   play env0 neverCached ((newPlayer [])\<lparr>status := PAUSED\<rparr>) =
     (Inl NotConnectedError, (newPlayer [])\<lparr>status := PAUSED\<rparr>) \<and>
   seek env0 neverCached 30 (newPlayer []) = (Inl NotConnectedError, newPlayer []) \<and>
   NotConnectedError \<noteq> EmptyQueueError"
proof -
  have a: "voiceConnection (newPlayer []) = None" by (simp add: newPlayer_def)
  have b: "voiceConnection ((newPlayer [])\<lparr>status := PAUSED\<rparr>) = None" by (simp add: newPlayer_def)
  from not_connected_first [OF a, of env0 neverCached 30]
       not_connected_first [OF b, of env0 neverCached 30]
  show ?thesis by (simp add: NotConnectedError_def EmptyQueueError_def)
qed

subsection \<open>Starting a source\<close>

text \<open>
  \<^verbatim>\<open>play()\<close> outside the paused state never writes the position: it starts the tracker
  with no argument. This holds whether it succeeds or fails.
\<close>

lemma play_fresh_keeps_position:
  assumes "status s \<noteq> PAUSED"
  shows "positionInSeconds (snd (play E fsAt s)) = positionInSeconds s"
  using assms
  by (simp add: play_def attachListeners_def startTrackingPosition_def Let_def
      split: option.splits sum.splits)

text \<open>
  C1. The queue is \<open>[A, B]\<close>; \<^verbatim>\<open>play()\<close> starts A and the position is 0; three seconds
  pass; the dispatcher reports silence. The listener advances the queue to \<open>[B]\<close> and
  \<^verbatim>\<open>play()\<close> starts B with the status still \<open>PLAYING\<close>, and the position then reads 3,
  the value left by A, where the specification has 0.
\<close>

theorem advance_keeps_stale_position:
  "getPosition playingA = 0 \<and>
   getPosition threeSecondsIn = 3 \<and>
   onSpeaking env0 cachedAB False threeSecondsIn =
     (Inr (),
      \<lparr>status = PLAYING, queue = [songB],
       voiceConnection = Some \<lparr>connected = True, disconnectListeners = 2\<rparr>,
       dispatcher = Some \<lparr>resource = CachedFile ''/data/cache/B'', seekOption = None,
                          typeOption = None, paused = False, speakingListeners = 1\<rparr>,
       playPositionInterval = Some True, positionInSeconds = 3\<rparr>) \<and>
   getPosition (snd (onSpeaking env0 cachedAB False threeSecondsIn)) = 3"
  by (simp add: threeSecondsIn_eq playingA_eq onSpeaking_def forward_def play_def getCurrentSong_def
      isCached_def getCachedPath_def env0_def cachedAB_def songA_def songB_def connectionPlay_def
      attachListeners_def startTrackingPosition_def getPosition_def Let_def)

subsection \<open>seek\<close>

text \<open>
  A successful \<^verbatim>\<open>seek(p)\<close> leaves the status \<open>PLAYING\<close> and the transport started at \<open>p\<close>.
  The position reads \<open>p\<close> when \<open>p\<close> is not 0, and is left as it was when \<open>p\<close> is 0.
\<close>

lemma seek_success:
  assumes "fst (seek E fsAt p s) = Inr ()"
  shows "status (snd (seek E fsAt p s)) = PLAYING \<and>
         map_option seekOption (dispatcher (snd (seek E fsAt p s))) = Some (Some p) \<and>
         getPosition (snd (seek E fsAt p s)) = (if p \<noteq> 0 then p else getPosition s)"
  using assms
  by (auto simp: seek_def attachListeners_def startTrackingPosition_def connectionPlay_def
      getPosition_def Let_def split: option.splits sum.splits)

text \<open>
  C2. A is playing, cached, three seconds in. \<^verbatim>\<open>seek(0)\<close> succeeds, the status is
  \<open>PLAYING\<close> and the transport restarts A at offset 0, but the position still reads 3
  where the specification has 0.
\<close>

theorem seek_zero_keeps_position:
  "seek env0 cachedAB 0 threeSecondsIn =
     (Inr (),
      \<lparr>status = PLAYING, queue = [songA, songB],
       voiceConnection = Some \<lparr>connected = True, disconnectListeners = 2\<rparr>,
       dispatcher = Some \<lparr>resource = CachedFile ''/data/cache/A'', seekOption = Some 0,
                          typeOption = None, paused = False, speakingListeners = 1\<rparr>,
       playPositionInterval = Some True, positionInSeconds = 3\<rparr>) \<and>
   getPosition (snd (seek env0 cachedAB 0 threeSecondsIn)) = 3"
  by (simp add: threeSecondsIn_eq playingA_eq seek_def getCurrentSong_def waitForCache_def
      isCached_def getCachedPath_def env0_def cachedAB_def songA_def songB_def connectionPlay_def
      attachListeners_def startTrackingPosition_def getPosition_def Let_def)

subsection \<open>End of track\<close>

text \<open>
  On silence while \<open>PLAYING\<close> the listener tests the queue before it advances it. With a
  further item the queue is advanced and \<^verbatim>\<open>play()\<close> runs on it; with the finished item
  alone the queue is advanced to empty and \<^verbatim>\<open>play()\<close> runs on the empty queue.
\<close>

lemma onSpeaking_advances:
  assumes "status s = PLAYING" and "queue s = a # rest"
  shows "onSpeaking E fsAt False s = play E fsAt (s\<lparr>queue := rest\<rparr>)"
  using assms by (simp add: onSpeaking_def forward_def)

lemma onSpeaking_last_item:
  assumes "status s = PLAYING" and "queue s = [a]" and "voiceConnection s = Some conn"
  shows "onSpeaking E fsAt False s = (Inl EmptyQueueError, s\<lparr>queue := []\<rparr>)"
  using assms by (simp add: onSpeaking_def forward_def play_def getCurrentSong_def)

text \<open>
  C3. The queue is \<open>[A]\<close> and A is playing. When the dispatcher reports silence the
  listener drops A and calls \<^verbatim>\<open>play()\<close> on the empty queue: the listener's promise
  rejects with the empty-queue error, where the specification has no error raised at the end of
  the last queued track.
\<close>

theorem last_track_end_raises:
  "status lastTrack = PLAYING \<and> queue lastTrack = [songA] \<and>
   onSpeaking env0 cachedAB False lastTrack = (Inl EmptyQueueError, lastTrack\<lparr>queue := []\<rparr>)"
  by (simp add: lastTrack_eq onSpeaking_def forward_def play_def getCurrentSong_def)

section \<open>Waiting for the cache\<close>

text \<open>
  For a url that is never cached the interval callback runs \<open>maxRetries + 1\<close> times: the
  promise rejects in the first run that finds \<^verbatim>\<open>nOfChecks > maxRetries\<close>.
\<close>

lemma cachedCheck_never_cached:
  "\<forall>k. \<not> isCached E (fsAt k) u \<Longrightarrow> int n \<le> maxRetries \<Longrightarrow>
     cachedCheck E fsAt u maxRetries n = (Inl CacheTimeoutError, nat maxRetries + 1)"
proof (induction E fsAt u maxRetries n rule: cachedCheck.induct)
  case (1 E fsAt u maxRetries nOfChecks)
  from "1.prems"(1) have nc: "\<not> isCached E (fsAt (Suc nOfChecks)) u" by blast
  show ?case
  proof (cases "int (Suc nOfChecks) > maxRetries")
    case True
    with "1.prems"(2) have "nat maxRetries = nOfChecks" by linarith
    with True nc show ?thesis
      by (subst cachedCheck.simps) simp
  next
    case False
    then have le: "int (Suc nOfChecks) \<le> maxRetries" by simp
    from "1.IH" [OF nc False "1.prems"(1) le] False nc show ?thesis
      by (subst cachedCheck.simps) simp
  qed
qed

lemma waitForCache_never_cached:
  assumes "\<forall>k. \<not> isCached E (fsAt k) u" and "0 \<le> maxRetries"
  shows "waitForCache E fsAt u maxRetries retryDelay =
           (Inl CacheTimeoutError, nat maxRetries + 1, (nat maxRetries + 1) * retryDelay)"
  using assms by (simp add: waitForCache_def cachedCheck_never_cached)

text \<open>
  C6. With \<open>maxRetries = 3\<close> and \<open>retryDelay = 10\<close> on a url that is never cached, the
  promise rejects with the timeout error in the fourth run of the interval callback, due
  40 ms after the call, where the specification has three polls and 30 ms.
\<close>

theorem waitForCache_three_retries_four_polls:
  "waitForCache E neverCached u 3 10 = (Inl CacheTimeoutError, 4, 40)"
  by (simp add: waitForCache_def isCached_def neverCached_def cachedCheck.simps)

section \<open>Acquiring a source\<close>

lemma find_first_match:
  "P f \<Longrightarrow> \<forall>g\<in>set pre. \<not> P g \<Longrightarrow> find P (pre @ f # post) = Some f"
  by (induction pre) auto

lemma parseInt_48000: "parseInt ''48000'' = Some 48000"
  by (simp add: parseInt_def stripSign_def isWhiteSpace_def digitVal_def)

lemma nativeFilter_opus_webm_48000:
  assumes "codecs format = ''opus''" and "container format = ''webm''"
    and "audioSampleRate format = Some ''48000''"
  shows "nativeFilter format"
  unfolding nativeFilter_def using assms by (simp add: parseInt_48000)

text \<open>
  C7. For a url that is not cached and whose encodings, as the remote lists them, hold a
  native one (opus, webm, 48000 Hz) with none before it, \<^verbatim>\<open>getStream\<close> resolves to a
  reader of the capacitor fed by \<^verbatim>\<open>downloadFromInfo\<close> with that encoding: the first
  native encoding is played directly, and nothing is transcoded.
\<close>

theorem getStream_native_direct_play:
  assumes "\<not> isCached E fs u"
    and "getInfo E u = Inr info"
    and "formats info = pre @ format # post"
    and "nativeFilter format"
    and "\<forall>g\<in>set pre. \<not> nativeFilter g"
  shows "getStream E fs u = Inr (Capacitor (DownloadFromInfo format) (\<not> isLiveContent info)) \<and>
         (case getStream E fs u of Inl e \<Rightarrow> False | Inr p \<Rightarrow> \<not> transcoded p)"
  using assms by (simp add: getStream_def find_first_match transcoded_def)

lemma aac_not_native: "\<not> nativeFilter aacFormat"
  by (simp add: nativeFilter_def aacFormat_def)

lemma opus_native: "nativeFilter opusFormat"
  by (rule nativeFilter_opus_webm_48000) (simp_all add: opusFormat_def)

theorem getStream_native_direct_play_witness:
  "getStream env0 {} ''native'' = Inr (Capacitor (DownloadFromInfo opusFormat) True) \<and>
   \<not> transcoded (Capacitor (DownloadFromInfo opusFormat) True)"
proof -
  have a: "\<not> isCached env0 {} ''native''" by (simp add: isCached_def)
  have b: "getInfo env0 ''native'' =
             Inr \<lparr>formats = [aacFormat, opusFormat, opusLowFormat], isLiveContent = False\<rparr>"
    by (simp add: env0_def remote_def)
  have c: "formats \<lparr>formats = [aacFormat, opusFormat, opusLowFormat], isLiveContent = False\<rparr> =
             [aacFormat] @ opusFormat # [opusLowFormat]"
    by simp
  have d: "\<forall>g\<in>set [aacFormat]. \<not> nativeFilter g" by (simp add: aac_not_native)
  from getStream_native_direct_play [OF a b c opus_native d] show ?thesis
    by (simp add: transcoded_def)
qed

subsection \<open>The fallback selection\<close>

text \<open>
  What \<^verbatim>\<open>nextBestFormat\<close> selects on a list that is not empty. With the first encoding
  live and every encoding reporting an audio bitrate, it is an encoding of a whitelisted
  itag with the highest audio bitrate among those. Otherwise, among the encodings with an
  average bitrate, it is the one of highest average bitrate of those with no bitrate, or,
  when there is none, the one of highest average bitrate. It selects nothing exactly when
  no encoding is a candidate, and \<^verbatim>\<open>getStream\<close> then fails with the no-suitable-format
  error.
\<close>

lemma set_insert_by: "set (insert_by c x xs) = insert x (set xs)"
  by (induction xs) auto

lemma set_sort_by: "set (sort_by c xs) = set xs"
  unfolding sort_by_def by (induction xs) (simp_all add: set_insert_by)

lemma sorted_insert_by:
  assumes "\<forall>y\<in>set (x # xs). key y \<noteq> None"
    and "sorted_wrt (\<lambda>a b. the (key b) \<le> the (key a)) xs"
  shows "sorted_wrt (\<lambda>a b. the (key b) \<le> the (key a)) (insert_by (descending key) x xs)"
  using assms
proof (induction xs)
  case Nil
  then show ?case by simp
next
  case (Cons y ys)
  from Cons.prems(1) obtain kx ky where k: "key x = Some kx" "key y = Some ky" by auto
  show ?case
  proof (cases "descending key x y \<le> 0")
    case True
    with k have "ky \<le> kx" by (simp add: descending_def)
    with k Cons.prems(2) True show ?thesis by fastforce
  next
    case False
    with k have lt: "kx \<le> ky" by (simp add: descending_def)
    from Cons.prems have "sorted_wrt (\<lambda>a b. the (key b) \<le> the (key a)) (insert_by (descending key) x ys)"
      by (intro Cons.IH) auto
    with k lt Cons.prems(2) False show ?thesis by (auto simp: set_insert_by)
  qed
qed

lemma sorted_sort_by:
  "\<forall>y\<in>set xs. key y \<noteq> None \<Longrightarrow>
     sorted_wrt (\<lambda>a b. the (key b) \<le> the (key a)) (sort_by (descending key) xs)"
proof (induction xs)
  case Nil
  then show ?case by (simp add: sort_by_def)
next
  case (Cons x xs)
  then have "sorted_wrt (\<lambda>a b. the (key b) \<le> the (key a)) (sort_by (descending key) xs)"
    by simp
  moreover from Cons.prems have "\<forall>y\<in>set (x # sort_by (descending key) xs). key y \<noteq> None"
    by (simp add: set_sort_by)
  ultimately have "sorted_wrt (\<lambda>a b. the (key b) \<le> the (key a))
      (insert_by (descending key) x (sort_by (descending key) xs))"
    by (rule sorted_insert_by [rotated])
  then show ?case by (simp add: sort_by_def)
qed

lemma find_sorted_first:
  assumes "sorted_wrt R xs" and "find P xs = Some f" and "g \<in> set xs" and "P g"
  shows "g = f \<or> R f g"
  using assms
proof (induction xs)
  case Nil
  then show ?case by simp
next
  case (Cons x xs)
  show ?case
  proof (cases "P x")
    case True
    with Cons.prems show ?thesis by auto
  next
    case False
    with Cons.prems have "g \<in> set xs" by auto
    with Cons False show ?thesis by auto
  qed
qed

lemma find_Some_props: "find P xs = Some f \<Longrightarrow> f \<in> set xs \<and> P f"
  by (induction xs) (auto split: if_splits)

lemma nextBestFormat_none_iff:
  "nextBestFormat (f0 # rest) = Inr None \<longleftrightarrow>
     (if live f0 then \<forall>g\<in>set (f0 # rest). itag g \<notin> set liveItags
      else \<forall>g\<in>set (f0 # rest). \<not> truthy (averageBitrate g))"
proof (cases "live f0")
  case True
  define s where "s = sort_by (descending audioBitrate) (f0 # rest)"
  have s: "set s = set (f0 # rest)"
    unfolding s_def by (rule set_sort_by)
  from True have "nextBestFormat (f0 # rest) = Inr (find (\<lambda>format. itag format \<in> set liveItags) s)"
    unfolding s_def by (simp add: nextBestFormat_def)
  then have "(nextBestFormat (f0 # rest) = Inr None) =
               (find (\<lambda>format. itag format \<in> set liveItags) s = None)"
    by simp
  also have "\<dots> = (\<forall>g\<in>set s. itag g \<notin> set liveItags)"
    by (simp only: find_None_iff) blast
  finally show ?thesis using True by (simp only: s if_True)
next
  case False
  define c where "c = filter (\<lambda>format. truthy (averageBitrate format)) (f0 # rest)"
  define s where "s = sort_by (descending averageBitrate) c"
  have s: "set s = {g \<in> set (f0 # rest). truthy (averageBitrate g)}"
    unfolding s_def c_def by (simp only: set_sort_by set_filter)
  from False have nb: "nextBestFormat (f0 # rest) =
      Inr (case find (\<lambda>format. \<not> truthy (bitrate format)) s of
             Some f \<Rightarrow> Some f
           | None \<Rightarrow> (case s of [] \<Rightarrow> None | f # _ \<Rightarrow> Some f))"
    unfolding s_def c_def by (simp add: nextBestFormat_def Let_def del: filter.simps)
  have "(nextBestFormat (f0 # rest) = Inr None) = (s = [])"
  proof (cases "find (\<lambda>format. \<not> truthy (bitrate format)) s")
    case None
    with nb show ?thesis by (cases s) simp_all
  next
    case (Some a)
    then have "a \<in> set s" by (simp add: find_Some_props)
    then have "s \<noteq> []" by auto
    with nb Some show ?thesis by simp
  qed
  also have "\<dots> = (set s = {})" by simp
  also have "\<dots> = (\<forall>g\<in>set (f0 # rest). \<not> truthy (averageBitrate g))"
    by (simp only: s) blast
  finally show ?thesis using False by (simp only: if_False)
qed

lemma nextBestFormat_live:
  assumes "live f0"
    and "\<forall>g\<in>set (f0 # rest). audioBitrate g \<noteq> None"
    and "nextBestFormat (f0 # rest) = Inr (Some f)"
  shows "f \<in> set (f0 # rest) \<and> itag f \<in> set liveItags \<and>
         (\<forall>g\<in>set (f0 # rest). itag g \<in> set liveItags \<longrightarrow>
            the (audioBitrate g) \<le> the (audioBitrate f))"
proof -
  let ?s = "sort_by (descending audioBitrate) (f0 # rest)"
  from assms(1,3) have fnd: "find (\<lambda>format. itag format \<in> set liveItags) ?s = Some f"
    by (simp add: nextBestFormat_def)
  then have "f \<in> set ?s \<and> itag f \<in> set liveItags" by (rule find_Some_props)
  then have in_set: "f \<in> set (f0 # rest)" and ok: "itag f \<in> set liveItags"
    by (simp_all only: set_sort_by)
  have srt: "sorted_wrt (\<lambda>a b. the (audioBitrate b) \<le> the (audioBitrate a)) ?s"
    by (rule sorted_sort_by [OF assms(2)])
  have "the (audioBitrate g) \<le> the (audioBitrate f)"
    if "g \<in> set (f0 # rest)" and "itag g \<in> set liveItags" for g
  proof -
    from that(1) have "g \<in> set ?s" by (simp only: set_sort_by)
    from find_sorted_first [OF srt fnd this that(2)] show ?thesis by auto
  qed
  with in_set ok show ?thesis by blast
qed




lemma truthy_defined: "truthy v \<Longrightarrow> v \<noteq> None"
  by (simp add: truthy_def split: option.splits)

lemma nextBestFormat_finite:
  assumes "\<not> live f0" and "nextBestFormat (f0 # rest) = Inr (Some f)"
  shows "f \<in> set (f0 # rest) \<and> truthy (averageBitrate f) \<and>
         (if \<exists>g\<in>set (f0 # rest). truthy (averageBitrate g) \<and> \<not> truthy (bitrate g)
          then \<not> truthy (bitrate f) \<and>
               (\<forall>g\<in>set (f0 # rest). truthy (averageBitrate g) \<and> \<not> truthy (bitrate g) \<longrightarrow>
                  the (averageBitrate g) \<le> the (averageBitrate f))
          else (\<forall>g\<in>set (f0 # rest). truthy (averageBitrate g) \<longrightarrow>
                  the (averageBitrate g) \<le> the (averageBitrate f)))"
proof -
  define c where "c = filter (\<lambda>format. truthy (averageBitrate format)) (f0 # rest)"
  define s where "s = sort_by (descending averageBitrate) c"
  have s: "set s = {g \<in> set (f0 # rest). truthy (averageBitrate g)}"
    unfolding s_def c_def by (simp only: set_sort_by set_filter)
  have "\<forall>g\<in>set c. averageBitrate g \<noteq> None"
    unfolding c_def by (simp only: set_filter) (blast dest: truthy_defined)
  then have srt: "sorted_wrt (\<lambda>a b. the (averageBitrate b) \<le> the (averageBitrate a)) s"
    unfolding s_def by (rule sorted_sort_by)
  from assms have sel:
    "(case find (\<lambda>format. \<not> truthy (bitrate format)) s of
        Some f \<Rightarrow> Some f
      | None \<Rightarrow> (case s of [] \<Rightarrow> None | f # _ \<Rightarrow> Some f)) = Some f"
    unfolding s_def c_def by (simp add: nextBestFormat_def Let_def del: filter.simps)
  show ?thesis
  proof (cases "find (\<lambda>format. \<not> truthy (bitrate format)) s")
    case None
    then have "\<not> (\<exists>g. g \<in> set s \<and> \<not> truthy (bitrate g))"
      by (simp add: find_None_iff)
    with s have no: "\<not> (\<exists>g\<in>set (f0 # rest). truthy (averageBitrate g) \<and> \<not> truthy (bitrate g))"
      by blast
    from sel None obtain tl where hd: "s = f # tl"
      by (cases s) simp_all
    then have "f \<in> set s" by simp
    with s have fin: "f \<in> set (f0 # rest)" "truthy (averageBitrate f)" by blast+
    have le: "the (averageBitrate g) \<le> the (averageBitrate f)"
      if "g \<in> set (f0 # rest)" and "truthy (averageBitrate g)" for g
    proof -
      from that s have "g \<in> set s" by blast
      with hd have "g = f \<or> g \<in> set tl" by simp
      moreover from srt hd have "\<forall>x\<in>set tl. the (averageBitrate x) \<le> the (averageBitrate f)"
        by simp
      ultimately show ?thesis by blast
    qed
    from no have "?thesis = (f \<in> set (f0 # rest) \<and> truthy (averageBitrate f) \<and>
        (\<forall>g\<in>set (f0 # rest). truthy (averageBitrate g) \<longrightarrow>
                  the (averageBitrate g) \<le> the (averageBitrate f)))"
      by (simp only: if_False)
    with fin le show ?thesis by blast
  next
    case (Some a)
    with sel have fnd: "find (\<lambda>format. \<not> truthy (bitrate format)) s = Some f" by simp
    then have "f \<in> set s \<and> \<not> truthy (bitrate f)" by (rule find_Some_props)
    with s have fin: "f \<in> set (f0 # rest)" "truthy (averageBitrate f)" "\<not> truthy (bitrate f)"
      by blast+
    then have ex: "\<exists>g\<in>set (f0 # rest). truthy (averageBitrate g) \<and> \<not> truthy (bitrate g)"
      by blast
    have le: "the (averageBitrate g) \<le> the (averageBitrate f)"
      if "g \<in> set (f0 # rest)" and "truthy (averageBitrate g)" and "\<not> truthy (bitrate g)" for g
    proof -
      from that s have "g \<in> set s" by blast
      from find_sorted_first [OF srt fnd this that(3)] show ?thesis by auto
    qed
    from ex have "?thesis = (f \<in> set (f0 # rest) \<and> truthy (averageBitrate f) \<and>
        \<not> truthy (bitrate f) \<and>
               (\<forall>g\<in>set (f0 # rest). truthy (averageBitrate g) \<and> \<not> truthy (bitrate g) \<longrightarrow>
                  the (averageBitrate g) \<le> the (averageBitrate f)))"
      by (simp only: if_True)
    with fin le show ?thesis by blast
  qed
qed




lemma getStream_no_fallback:
  assumes "\<not> isCached E fs u" and "getInfo E u = Inr info"
    and "formats info = f0 # rest"
    and "\<forall>g\<in>set (f0 # rest). \<not> nativeFilter g"
    and "if live f0 then \<forall>g\<in>set (f0 # rest). itag g \<notin> set liveItags
         else \<forall>g\<in>set (f0 # rest). \<not> truthy (averageBitrate g)"
  shows "getStream E fs u = Inl NoSuitableFormatError"
proof -
  from assms(4) have "find nativeFilter (f0 # rest) = None"
    by (simp only: find_None_iff) blast
  moreover from assms(5) have "nextBestFormat (f0 # rest) = Inr None"
    by (simp only: nextBestFormat_none_iff)
  ultimately show ?thesis using assms(1-3) by (simp add: getStream_def)
qed

lemma getStream_fallback_transcodes:
  assumes "\<not> isCached E fs u" and "getInfo E u = Inr info"
    and "formats info = f0 # rest"
    and "\<forall>g\<in>set (f0 # rest). \<not> nativeFilter g"
    and "nextBestFormat (f0 # rest) = Inr (Some f)"
  shows "getStream E fs u = Inr (Capacitor (Ffmpeg (videoFormat.url f)) (\<not> isLiveContent info))"
proof -
  from assms(4) have "find nativeFilter (f0 # rest) = None"
    by (simp only: find_None_iff) blast
  with assms show ?thesis by (simp add: getStream_def)
qed

text \<open>
  C8. For a url that is not cached and whose list of encodings is empty, \<^verbatim>\<open>getStream\<close>
  fails in \<^verbatim>\<open>nextBestFormat\<close> on \<^verbatim>\<open>formats[0].live\<close> with the runtime's type error, where
  the specification has the no-suitable-format error.
\<close>

theorem getStream_empty_formats_type_error:
  assumes "\<not> isCached E fs u" and "getInfo E u = Inr info" and "formats info = []"
  shows "getStream E fs u = Inl UndefinedLiveError"
  using assms by (simp add: getStream_def nextBestFormat_def)

theorem getStream_empty_formats_type_error_witness:
  "getStream env0 {} ''empty'' = Inl UndefinedLiveError \<and>
   UndefinedLiveError \<noteq> NoSuitableFormatError"
proof -
  have a: "\<not> isCached env0 {} ''empty''" by (simp add: isCached_def)
  have b: "getInfo env0 ''empty'' = Inr \<lparr>formats = [], isLiveContent = False\<rparr>"
    by (simp add: env0_def remote_def)
  from getStream_empty_formats_type_error [OF a b] show ?thesis
    by (simp add: UndefinedLiveError_def NoSuitableFormatError_def)
qed

section \<open>The cache writer and the existence check\<close>

subsection \<open>A cache directory other than the temporary directory\<close>

text \<open>
  Let no temporary path be the cached path of the url, and let the url not be cached at
  the start. Then after any number \<open>n\<close> of the events of any cache writers the existence
  check is true exactly when a \<^verbatim>\<open>finish\<close> whose rename succeeded and created the cached
  path is among them: creating the temporary file, writing to it, a failed write and a
  rejected rename never make it true. Once true it is true after every longer run of
  events.
\<close>

lemma writer_step_keeps_cached:
  assumes "\<forall>v. getCachedPathTemp E v \<noteq> getCachedPath E u" and "isCached E fs u"
  shows "isCached E (writer_step E fs e) u"
proof (cases e)
  case (Pair v ev)
  with assms show ?thesis by (cases ev) (auto simp: isCached_def)
qed

lemma writer_run_keeps_cached:
  assumes "\<forall>v. getCachedPathTemp E v \<noteq> getCachedPath E u"
  shows "isCached E fs u \<Longrightarrow> isCached E (writer_run E fs evs) u"
  unfolding writer_run_def
  by (induction evs arbitrary: fs) (simp_all add: writer_step_keeps_cached [OF assms])

lemma writer_step_publishes:
  assumes "\<forall>v. getCachedPathTemp E v \<noteq> getCachedPath E u" and "\<not> isCached E fs u"
  shows "isCached E (writer_step E fs e) u =
           (snd e = Finish True \<and> getCachedPathTemp E (fst e) \<in> fs \<and>
            getCachedPath E (fst e) = getCachedPath E u)"
proof (cases e)
  case (Pair v ev)
  with assms show ?thesis by (cases ev) (auto simp: isCached_def)
qed

lemma writer_run_cached_iff_published:
  assumes "\<forall>v. getCachedPathTemp E v \<noteq> getCachedPath E u"
  shows "\<not> isCached E fs u \<Longrightarrow> isCached E (writer_run E fs evs) u = published E fs evs u"
proof (induction evs arbitrary: fs)
  case Nil
  then show ?case by (simp add: writer_run_def)
next
  case (Cons e es)
  show ?case
  proof (cases "isCached E (writer_step E fs e) u")
    case True
    then have "isCached E (writer_run E (writer_step E fs e) es) u"
      by (rule writer_run_keeps_cached [OF assms])
    moreover from True have "snd e = Finish True \<and> getCachedPathTemp E (fst e) \<in> fs \<and>
            getCachedPath E (fst e) = getCachedPath E u"
      using writer_step_publishes [OF assms Cons.prems] by simp
    ultimately show ?thesis by (simp add: writer_run_def)
  next
    case False
    then have "\<not> (snd e = Finish True \<and> getCachedPathTemp E (fst e) \<in> fs \<and>
            getCachedPath E (fst e) = getCachedPath E u)"
      using writer_step_publishes [OF assms Cons.prems] by simp
    with Cons.IH [OF False] show ?thesis unfolding writer_run_def by auto
  qed
qed

lemma writer_run_prefix:
  assumes "n \<le> m"
  shows "writer_run E fs (take m evs) =
           writer_run E (writer_run E fs (take n evs)) (drop n (take m evs))"
proof -
  from assms have "take n (take m evs) = take n evs"
    by (simp add: min.absorb1)
  then have "take m evs = take n evs @ drop n (take m evs)"
    using append_take_drop_id [of n "take m evs"] by argo
  then have "writer_run E fs (take m evs) =
               writer_run E fs (take n evs @ drop n (take m evs))"
    by simp
  then show ?thesis by (simp add: writer_run_def)
qed

lemma cached_iff_published:
  assumes "\<forall>v. getCachedPathTemp E v \<noteq> getCachedPath E u"
    and "\<not> isCached E fs u"
  shows "isCached E (writer_run E fs (take n evs)) u = published E fs (take n evs) u \<and>
         (n \<le> m \<and> isCached E (writer_run E fs (take n evs)) u \<longrightarrow>
            isCached E (writer_run E fs (take m evs)) u)"
proof
  show "isCached E (writer_run E fs (take n evs)) u = published E fs (take n evs) u"
    by (rule writer_run_cached_iff_published [OF assms])
next
  show "n \<le> m \<and> isCached E (writer_run E fs (take n evs)) u \<longrightarrow>
          isCached E (writer_run E fs (take m evs)) u"
  proof
    assume a: "n \<le> m \<and> isCached E (writer_run E fs (take n evs)) u"
    then have c: "isCached E (writer_run E fs (take n evs)) u" and le: "n \<le> m"
      by simp_all
    from c have "isCached E (writer_run E (writer_run E fs (take n evs)) (drop n (take m evs))) u"
      by (rule writer_run_keeps_cached [OF assms(1)])
    then show "isCached E (writer_run E fs (take m evs)) u"
      by (simp only: writer_run_prefix [OF le, of E fs evs])
  qed
qed

text \<open>
  In the environment with the cache directory \<^verbatim>\<open>/data/cache\<close>: a failed write and a
  rejected rename leave A uncached, a rename that succeeds caches it, and it stays cached
  when a writer for B starts.
\<close>

lemma cached_iff_published_data_cache:
  "\<not> isCached env0 (writer_run env0 {}
        [(''A'', CreateWriteStream), (''A'', WriteChunk), (''A'', WriteFailed)]) ''A'' \<and>
   \<not> isCached env0 (writer_run env0 {}
        [(''A'', CreateWriteStream), (''A'', WriteChunk), (''A'', Finish False)]) ''A'' \<and>
   \<not> isCached env0 (writer_run env0 {}
        [(''A'', CreateWriteStream), (''A'', WriteChunk)]) ''A'' \<and>
   isCached env0 (writer_run env0 {}
        [(''A'', CreateWriteStream), (''A'', WriteChunk), (''A'', Finish True)]) ''A'' \<and>
   isCached env0 (writer_run env0 {}
        [(''A'', CreateWriteStream), (''A'', WriteChunk), (''A'', Finish True),
         (''B'', CreateWriteStream)]) ''A''"
proof -
  have h: "\<forall>v. getCachedPathTemp env0 v \<noteq> getCachedPath env0 ''A''"
    by (simp add: getCachedPathTemp_def getCachedPath_def env0_def)
  have n: "\<not> isCached env0 {} ''A''" by (simp add: isCached_def)
  have t: "getCachedPathTemp env0 ''A'' = ''/tmp/A''"
    by (simp add: getCachedPathTemp_def env0_def)
  have c: "getCachedPath env0 ''A'' = ''/data/cache/A''"
    by (simp add: getCachedPath_def env0_def)
  from cached_iff_published [OF h n, of 3
         "[(''A'', CreateWriteStream), (''A'', WriteChunk), (''A'', WriteFailed)]" 3]
       cached_iff_published [OF h n, of 3
         "[(''A'', CreateWriteStream), (''A'', WriteChunk), (''A'', Finish False)]" 3]
       cached_iff_published [OF h n, of 2
         "[(''A'', CreateWriteStream), (''A'', WriteChunk), (''A'', Finish True),
           (''B'', CreateWriteStream)]" 2]
       cached_iff_published [OF h n, of 3
         "[(''A'', CreateWriteStream), (''A'', WriteChunk), (''A'', Finish True),
           (''B'', CreateWriteStream)]" 4]
  show ?thesis by (simp add: t c)
qed

subsection \<open>The cache directory /tmp\<close>

text \<open>
  The temporary directory is the fixed \<^verbatim>\<open>/tmp\<close> and the cache directory is whatever the
  class is constructed with: constructed with \<^verbatim>\<open>/tmp\<close>, the temporary path of every url is
  its cached path, whatever the digest and \<^verbatim>\<open>path.join\<close> are.
\<close>

lemma tmp_cache_dir_paths_coincide:
  "cacheDir E = ''/tmp'' \<Longrightarrow> getCachedPathTemp E u = getCachedPath E u"
  by (simp add: getCachedPathTemp_def getCachedPath_def)

lemma tmp_cache_dir_cached_on_create:
  "cacheDir E = ''/tmp'' \<Longrightarrow> isCached E (writer_step E fs (u, CreateWriteStream)) u"
  by (simp add: isCached_def tmp_cache_dir_paths_coincide)

text \<open>
  C5. With the cache directory \<^verbatim>\<open>/tmp\<close> and A not cached, the temporary path of A is its
  cached path. As soon as the writer has created its file, and after a chunk is written,
  and after the write has failed, with no \<^verbatim>\<open>finish\<close> and no rename in the trace, the
  existence check for A is true, where the specification has it false until a publish
  completes and never true for a write in progress or a failed write.
\<close>

theorem tmp_cache_dir_exposes_unfinished_write:
  "cacheDir envTmp = ''/tmp'' \<and>
   getCachedPathTemp envTmp ''A'' = getCachedPath envTmp ''A'' \<and>
   \<not> isCached envTmp {} ''A'' \<and>
   \<not> published envTmp {}
        [(''A'', CreateWriteStream), (''A'', WriteChunk), (''A'', WriteFailed)] ''A'' \<and>
   isCached envTmp (writer_run envTmp {} [(''A'', CreateWriteStream)]) ''A'' \<and>
   isCached envTmp (writer_run envTmp {} [(''A'', CreateWriteStream), (''A'', WriteChunk)]) ''A'' \<and>
   isCached envTmp (writer_run envTmp {}
        [(''A'', CreateWriteStream), (''A'', WriteChunk), (''A'', WriteFailed)]) ''A''"
  by (simp add: envTmp_def env0_def getCachedPathTemp_def getCachedPath_def isCached_def
      writer_run_def)

end
